theory Spec2Isabelle
  imports Main
begin

section \<open>JavaScript values and strings\<close>

text \<open>
  The adapter of \<^verbatim>\<open>src/index.js\<close> concatenates caller-supplied values into SQL text
  and tests them for truthiness and emptiness. A value is one of JavaScript's primitives;
  numbers are integers (no fractions, no NaN, magnitude below 10^21, where
  JavaScript prints plain decimal digits).
\<close>

datatype jsval = JUndefined | JNull | JBool bool | JNum int | JStr string

text \<open>The single quote character, written \<^verbatim>\<open>"'"\<close> in the source.\<close>

definition sq :: char where
  "sq = CHR 0x27"

text \<open>JavaScript's truthiness, as tested by \<^verbatim>\<open>if (x)\<close>, \<^verbatim>\<open>x || y\<close> and \<^verbatim>\<open>!x\<close>.\<close>

fun truthy :: "jsval \<Rightarrow> bool" where
  "truthy JUndefined = False"
| "truthy JNull = False"
| "truthy (JBool b) = b"
| "truthy (JNum n) = (n \<noteq> 0)"
| "truthy (JStr s) = (s \<noteq> [])"

text \<open>
  lodash's \<^verbatim>\<open>_.isEmpty\<close>: true for \<^verbatim>\<open>null\<close>, \<^verbatim>\<open>undefined\<close>, booleans and
  numbers (they have no own enumerable properties and no length); a string is empty when
  its length is zero.
\<close>

fun isEmpty :: "jsval \<Rightarrow> bool" where
  "isEmpty JUndefined = True"
| "isEmpty JNull = True"
| "isEmpty (JBool b) = True"
| "isEmpty (JNum n) = True"
| "isEmpty (JStr s) = (s = [])"

text \<open>Decimal digits of a natural number, most significant first.\<close>

fun digits :: "nat \<Rightarrow> string" where
  "digits n =
     (if n < 10 then [''0123456789'' ! n]
      else digits (n div 10) @ [''0123456789'' ! (n mod 10)])"

declare digits.simps [simp del]

text \<open>The string a value becomes when it is concatenated to a string with \<^verbatim>\<open>+\<close>.\<close>

fun toString :: "jsval \<Rightarrow> string" where
  "toString JUndefined = ''undefined''"
| "toString JNull = ''null''"
| "toString (JBool b) = (if b then ''true'' else ''false'')"
| "toString (JNum n) = (if n < 0 then CHR ''-'' # digits (nat (- n)) else digits (nat n))"
| "toString (JStr s) = s"

text \<open>\<^verbatim>\<open>Array.prototype.join\<close> on an array of strings.\<close>

fun join :: "string \<Rightarrow> string list \<Rightarrow> string" where
  "join sep [] = []"
| "join sep [x] = x"
| "join sep (x # y # ys) = x @ sep @ join sep (y # ys)"

text \<open>
  An object is the list of its own enumerable properties in enumeration order (keys are
  distinct); \<^verbatim>\<open>_.keys(obj)\<close> lists the keys in that order.
\<close>

type_synonym 'a obj = "(string \<times> 'a) list"

definition hasOwnProperty :: "'a obj \<Rightarrow> string \<Rightarrow> bool" where
  "hasOwnProperty ob k = (map_of ob k \<noteq> None)"

definition keys :: "'a obj \<Rightarrow> string list" where
  "keys ob = map fst ob"

text \<open>Reading a property of an object of values: \<^verbatim>\<open>undefined\<close> when it has none.\<close>

definition get :: "jsval obj \<Rightarrow> string \<Rightarrow> jsval" where
  "get r k = (case map_of r k of None \<Rightarrow> JUndefined | Some v \<Rightarrow> v)"

text \<open>
  \<^verbatim>\<open>_.each(obj, f)\<close> does not always visit the own properties. When lodash takes the
  object for array-like it visits the indices \<^verbatim>\<open>0 .. obj.length - 1\<close> instead,
  calling \<^verbatim>\<open>f(obj[i], i)\<close>, whatever other properties the object has. Which
  objects are array-like depends on the version of lodash, which the source does not
  fix: before version 3 every object whose \<^verbatim>\<open>length\<close> is a number, from version 3
  on those whose \<^verbatim>\<open>length\<close> is a non-negative integer up to 2^53 - 1.
\<close>

datatype lodash = LodashBefore3 | LodashFrom3

fun isLength :: "lodash \<Rightarrow> jsval \<Rightarrow> bool" where
  "isLength LodashBefore3 (JNum n) = True"
| "isLength LodashFrom3 (JNum n) = (0 \<le> n \<and> n \<le> 9007199254740991)"
| "isLength L v = False"

text \<open>
  The entries \<^verbatim>\<open>_.each\<close> hands to its callback, in order, as (key, value). An
  index is given as the string it becomes in the callbacks of the adapter, which only
  use the key as a property name and in string concatenation.
\<close>

definition each :: "lodash \<Rightarrow> jsval obj \<Rightarrow> jsval obj" where
  "each L ob =
     (case get ob ''length'' of
        JNum n \<Rightarrow>
          if isLength L (JNum n)
          then map (\<lambda>i. (toString (JNum (int i)), get ob (toString (JNum (int i)))))
                 [0 ..< nat n]
          else ob
      | _ \<Rightarrow> ob)"

text \<open>The objects \<^verbatim>\<open>_.each\<close> walks by their own keys.\<close>

definition walked_by_key :: "lodash \<Rightarrow> jsval obj \<Rightarrow> bool" where
  "walked_by_key L ob = (\<not> isLength L (get ob ''length''))"

section \<open>Type mapper\<close>

text \<open>\<^verbatim>\<open>me.escape\<close>: \<^verbatim>\<open>String.prototype.replace\<close> with a string pattern replaces the
  first occurrence only.\<close>

fun replace_first_quote :: "string \<Rightarrow> string" where
  "replace_first_quote [] = []"
| "replace_first_quote (c # cs) =
     (if c = sq then sq # sq # cs else c # replace_first_quote cs)"

definition escape :: "string \<Rightarrow> string" where
  "escape word = [sq] @ replace_first_quote word @ [sq]"

text \<open>\<^verbatim>\<open>me.typeMap\<close>, native column type to abstract kind, in the order of the source.\<close>

definition typeMap :: "string obj" where
  "typeMap =
    [(''TIMESTMP'', ''time''), (''TIME'', ''time''), (''DATE'', ''date''),
     (''BINARY'', ''binary''), (''VARBINARY'', ''binary''),
     (''CHAR'', ''string''), (''VARCHAR'', ''string''), (''GRAPHIC'', ''string''),
     (''VARGRAPHIC'', ''string''),
     (''SMALLINT'', ''integer''), (''INTEGER'', ''integer''), (''BIGINT'', ''integer''),
     (''DECIMAL'', ''float''), (''DECFLOAT'', ''float''), (''REAL'', ''float''),
     (''DOUBLE'', ''float''),
     (''CLOB'', ''text''), (''BLOB'', ''text''), (''DBCLOB'', ''text''), (''XML'', ''text'')]"

text \<open>\<^verbatim>\<open>me.getSqlType\<close>: a \<^verbatim>\<open>switch\<close> with strict equality on the attribute's type;
  anything else leaves the initial empty string.\<close>

definition getSqlType :: "jsval \<Rightarrow> string" where
  "getSqlType attrType =
     (if attrType = JStr ''string'' then ''VARCHAR''
      else if attrType = JStr ''integer'' then ''INTEGER''
      else if attrType = JStr ''float'' then ''DOUBLE''
      else if attrType = JStr ''text'' then ''BLOB''
      else if attrType = JStr ''binary'' then ''VARBINARY''
      else if attrType = JStr ''time'' then ''TIMESTMP''
      else if attrType = JStr ''date'' then ''DATE''
      else [])"

text \<open>The seven abstract kinds.\<close>

definition abstract_kinds :: "string list" where
  "abstract_kinds =
     [''string'', ''integer'', ''float'', ''text'', ''binary'', ''time'', ''date'']"

section \<open>Collections and query options\<close>

text \<open>
  An attribute of a collection's definition: the fields the adapter reads. A flag is any
  value, tested for truthiness; \<^verbatim>\<open>undefined\<close> when absent.
\<close>

record attribute =
  attr_type :: jsval
  primaryKey :: jsval
  autoIncrement :: jsval
  attr_length :: jsval

record collection =
  tableName :: string
  definition_attrs :: "attribute obj"

text \<open>
  The options of find, update and destroy. An absent or empty \<^verbatim>\<open>where\<close> or
  \<^verbatim>\<open>sort\<close> is the empty object: \<^verbatim>\<open>_.each\<close> visits nothing in both cases.
  (The definition of a collection maps names to attribute objects, so its
  \<^verbatim>\<open>length\<close>, if it has one, is no number and \<^verbatim>\<open>_.each\<close> walks it by key.)
\<close>

record options =
  o_where :: "jsval obj"
  o_sort :: "jsval obj"
  o_limit :: jsval

definition getSelectAttributes :: "collection \<Rightarrow> string" where
  "getSelectAttributes c = join '','' (keys (definition_attrs c))"

section \<open>Query builder\<close>

subsection \<open>define\<close>

text \<open>The body of the loop over the definition: the column clause of one attribute.\<close>

definition attrQuery :: "string \<Rightarrow> attribute \<Rightarrow> string" where
  "attrQuery attrName a =
     (let attrType = getSqlType (attr_type a) in
      if truthy (primaryKey a) then
        (if truthy (autoIncrement a)
         then attrName @ '' INTEGER GENERATED ALWAYS AS IDENTITY PRIMARY KEY''
         else attrName @ '' VARCHAR(255) NOT NULL PRIMARY KEY'')
      else if attrType = ''VARCHAR'' then
        (let len = (if truthy (attr_length a) then attr_length a else JNum 255)
         in attrName @ '' '' @ attrType @ ''('' @ toString len @ '')'')
      else attrName @ '' '' @ attrType)"

definition define_schemaData :: "attribute obj \<Rightarrow> string list" where
  "define_schemaData defn =
     foldl (\<lambda>schemaData (attrName, a). schemaData @ [attrQuery attrName a]) [] defn"

definition define_query :: "string \<Rightarrow> attribute obj \<Rightarrow> string" where
  "define_query collectionName defn =
     ''CREATE TABLE '' @ collectionName @ '' '' @
       (''('' @ join '','' (define_schemaData defn) @ '')'')"

subsection \<open>describe\<close>

definition describe_query :: "string \<Rightarrow> string" where
  "describe_query collectionName =
     ''SELECT DISTINCT(NAME), COLTYPE, IDENTITY, KEYSEQ, NULLS FROM Sysibm.syscolumns WHERE tbname = ''
       @ escape collectionName"

subsection \<open>find\<close>

text \<open>The where loop of find and destroy pushes a placeholder and a bound parameter for
  every column the definition has.\<close>

definition where_step ::
  "attribute obj \<Rightarrow> string list \<times> jsval list \<Rightarrow> string \<times> jsval \<Rightarrow> string list \<times> jsval list"
where
  "where_step defn acc entry =
     (case acc of (whereData, params) \<Rightarrow>
        (case entry of (column, param) \<Rightarrow>
           if hasOwnProperty defn column
           then (whereData @ [column @ '' = ?''], params @ [param])
           else (whereData, params)))"

definition where_loop ::
  "lodash \<Rightarrow> attribute obj \<Rightarrow> jsval obj \<Rightarrow> string list \<times> jsval list"
where
  "where_loop L defn wh = foldl (where_step defn) ([], []) (each L wh)"

definition sort_step :: "attribute obj \<Rightarrow> string list \<Rightarrow> string \<times> jsval \<Rightarrow> string list" where
  "sort_step defn sortData entry =
     (case entry of (column, direction) \<Rightarrow>
        if hasOwnProperty defn column
        then sortData @ [column @ '' '' @ toString direction]
        else sortData)"

definition find_whereQuery :: "lodash \<Rightarrow> collection \<Rightarrow> options \<Rightarrow> string" where
  "find_whereQuery L c opts =
     (let whereQuery = join '' AND '' (fst (where_loop L (definition_attrs c) (o_where opts)))
      in if length whereQuery > 0 then '' WHERE '' @ whereQuery else whereQuery)"

definition find_sortQuery :: "lodash \<Rightarrow> collection \<Rightarrow> options \<Rightarrow> string" where
  "find_sortQuery L c opts =
     (let sortQuery =
            join '', '' (foldl (sort_step (definition_attrs c)) [] (each L (o_sort opts)))
      in if length sortQuery > 0 then '' ORDER BY '' @ sortQuery else sortQuery)"

definition find_limitQuery :: "options \<Rightarrow> string" where
  "find_limitQuery opts =
     (if \<not> isEmpty (o_limit opts)
      then '' FETCH FIRST '' @ toString (o_limit opts) @ '' ROWS ONLY ''
      else [])"

text \<open>The statement and the bound parameters find passes to the driver.\<close>

definition find_query :: "lodash \<Rightarrow> collection \<Rightarrow> options \<Rightarrow> string \<times> jsval list" where
  "find_query L c opts =
     (let selectQuery = ''SELECT '' @ getSelectAttributes c;
          fromQuery = '' FROM '' @ tableName c
      in (selectQuery @ fromQuery @ find_whereQuery L c opts @ find_sortQuery L c opts
            @ find_limitQuery opts,
          snd (where_loop L (definition_attrs c) (o_where opts))))"

subsection \<open>create\<close>

definition create_step ::
  "attribute obj \<Rightarrow> string list \<times> string list \<Rightarrow> string \<times> jsval \<Rightarrow> string list \<times> string list"
where
  "create_step defn acc entry =
     (case acc of (columns, questions) \<Rightarrow>
        (case entry of (column, param) \<Rightarrow>
           if hasOwnProperty defn column
           then (columns @ [column], questions @ [[sq] @ toString param @ [sq]])
           else (columns, questions)))"

definition create_loop ::
  "lodash \<Rightarrow> attribute obj \<Rightarrow> jsval obj \<Rightarrow> string list \<times> string list"
where
  "create_loop L defn vals = foldl (create_step defn) ([], []) (each L vals)"

definition create_query :: "lodash \<Rightarrow> collection \<Rightarrow> jsval obj \<Rightarrow> string" where
  "create_query L c vals =
     (case create_loop L (definition_attrs c) vals of (columns, questions) \<Rightarrow>
        ''SELECT '' @ getSelectAttributes c @ '' FROM FINAL TABLE (INSERT INTO '' @ tableName c
          @ '' ('' @ join '','' columns @ '') VALUES ('' @ join '','' questions @ ''))'')"

subsection \<open>update\<close>

text \<open>\<^verbatim>\<open>collection.definition[column].autoIncrement\<close>, read only when the column is
  the definition's own.\<close>

definition is_autoIncrement :: "attribute obj \<Rightarrow> string \<Rightarrow> bool" where
  "is_autoIncrement defn column =
     (case map_of defn column of None \<Rightarrow> False | Some a \<Rightarrow> truthy (autoIncrement a))"

definition set_step :: "attribute obj \<Rightarrow> string list \<Rightarrow> string \<times> jsval \<Rightarrow> string list" where
  "set_step defn setData entry =
     (case entry of (column, param) \<Rightarrow>
        if hasOwnProperty defn column \<and> \<not> is_autoIncrement defn column
        then setData @ [column @ '' = '' @ [sq] @ toString param @ [sq]]
        else setData)"

definition update_setData :: "lodash \<Rightarrow> attribute obj \<Rightarrow> jsval obj \<Rightarrow> string list" where
  "update_setData L defn vals = foldl (set_step defn) [] (each L vals)"

definition update_where_step :: "attribute obj \<Rightarrow> string list \<Rightarrow> string \<times> jsval \<Rightarrow> string list" where
  "update_where_step defn whereData entry =
     (case entry of (column, param) \<Rightarrow>
        if hasOwnProperty defn column
        then whereData @ [column @ '' = '' @ [sq] @ toString param @ [sq]]
        else whereData)"

definition update_setQuery :: "lodash \<Rightarrow> collection \<Rightarrow> jsval obj \<Rightarrow> string" where
  "update_setQuery L c vals =
     '' SET '' @ join '','' (update_setData L (definition_attrs c) vals)"

definition update_whereQuery :: "lodash \<Rightarrow> collection \<Rightarrow> options \<Rightarrow> string" where
  "update_whereQuery L c opts =
     (let whereQuery =
            join '' AND ''
              (foldl (update_where_step (definition_attrs c)) [] (each L (o_where opts)))
      in if length whereQuery > 0 then '' WHERE '' @ whereQuery else whereQuery)"

definition update_query :: "lodash \<Rightarrow> collection \<Rightarrow> options \<Rightarrow> jsval obj \<Rightarrow> string" where
  "update_query L c opts vals =
     ''SELECT '' @ getSelectAttributes c @ '' FROM FINAL TABLE (UPDATE '' @ tableName c
       @ update_setQuery L c vals @ update_whereQuery L c opts @ '')''"

subsection \<open>destroy\<close>

definition destroy_query :: "lodash \<Rightarrow> collection \<Rightarrow> options \<Rightarrow> string \<times> jsval list" where
  "destroy_query L c opts =
     (case where_loop L (definition_attrs c) (o_where opts) of (whereData, params) \<Rightarrow>
        (let whereQuery = join '' AND '' whereData;
             whereQuery = (if length whereQuery > 0 then '' WHERE '' @ whereQuery else whereQuery)
         in (''DELETE FROM '' @ tableName c @ whereQuery, params)))"

section \<open>Driver, registry and operations\<close>

text \<open>
  The database driver is outside the repository. A handle is the connection object the
  driver hands out; an error is the object it passes to a callback, of which the adapter
  reads the SQL state; a row is an object of column values.
\<close>

type_synonym handle = nat

type_synonym row = "jsval obj"

record db_error =
  err_state :: jsval
  err_message :: string

text \<open>The calls the adapter makes on the driver, and what the driver answered.\<close>

datatype call =
    Db2Open string
  | PoolOpen string
  | ConnQuery handle string "jsval list option"
  | ConnClose handle

datatype reply = Failure db_error | Connected handle | Records "row list" | Closed

type_synonym event = "call \<times> reply"

text \<open>
  The driver answers a call knowing everything that happened on it before: any
  deterministic driver and database is such a pair of functions. Statements on one
  handle are queued by the driver and answered in the order of issue, each callback
  running before the next statement starts.
\<close>

record driver =
  open_reply :: "event list \<Rightarrow> call \<Rightarrow> db_error + handle"
  query_reply :: "event list \<Rightarrow> call \<Rightarrow> db_error + row list"

record connection_config =
  cfg_identity :: jsval
  cfg_database :: jsval
  cfg_host :: jsval
  cfg_user :: jsval
  cfg_password :: jsval
  cfg_port :: jsval
  cfg_pool :: jsval

text \<open>An entry of \<^verbatim>\<open>me.connections\<close>; \<open>pool\<close> tells whether the entry holds a
  pool object, \<open>conn\<close> is the handle stored by the last operation, if any.\<close>

record registered_connection =
  config :: connection_config
  collections :: "string \<rightharpoonup> collection"
  pool :: bool
  conn :: "handle option"

text \<open>The module's state, and the log of the driver calls made so far.\<close>

record adapter =
  connections :: "string \<rightharpoonup> registered_connection"
  events :: "event list"

text \<open>
  What a call of an operation ends in: a TypeError thrown on the way (an unregistered
  connection or collection), or the arguments its callback was called with.
\<close>

datatype 'c outcome = Thrown | Called 'c

datatype registration_error = IdentityMissing | IdentityDuplicate

definition getConnectionString :: "registered_connection \<Rightarrow> string" where
  "getConnectionString connection =
     join '';''
       [''DRIVER={DB2}'',
        ''DATABASE='' @ toString (cfg_database (config connection)),
        ''HOSTNAME='' @ toString (cfg_host (config connection)),
        ''UID='' @ toString (cfg_user (config connection)),
        ''PWD='' @ toString (cfg_password (config connection)),
        ''PORT='' @ toString (cfg_port (config connection)),
        ''PROTOCOL=TCPIP'']"

text \<open>\<^verbatim>\<open>registerConnection\<close>: the callback's argument and the new state. (The
  alias \<^verbatim>\<open>findOneById\<close> it adds to the collections is a function property, which
  no query reads.)\<close>

definition registerConnection ::
  "connection_config \<Rightarrow> (string \<rightharpoonup> collection) \<Rightarrow> adapter
     \<Rightarrow> registration_error option \<times> adapter"
where
  "registerConnection connection colls s =
     (if \<not> truthy (cfg_identity connection) then (Some IdentityMissing, s)
      else if connections s (toString (cfg_identity connection)) \<noteq> None
        then (Some IdentityDuplicate, s)
      else (None,
        s\<lparr>connections := (connections s)(toString (cfg_identity connection) \<mapsto>
             \<lparr>config = connection, collections = colls,
              pool = truthy (cfg_pool connection), conn = None\<rparr>)\<rparr>))"

text \<open>\<^verbatim>\<open>closeConnection\<close> of teardown, for a connection name: closes the stored
  handle, if there is one, and removes the entry. (The loop of teardown over every
  connection, taken when no name is given, is not part of this development.)\<close>

definition closeConnection :: "string \<Rightarrow> adapter \<Rightarrow> unit outcome \<times> adapter" where
  "closeConnection connectionName s =
     (case connections s connectionName of
        None \<Rightarrow> (Thrown, s)
      | Some connection \<Rightarrow>
          (Called (),
           s\<lparr>connections := (connections s)(connectionName := None),
             events := events s @
               (case conn connection of None \<Rightarrow> [] | Some h \<Rightarrow> [(ConnClose h, Closed)])\<rparr>))"

text \<open>The last two lines of every operation: the pool's \<^verbatim>\<open>open\<close> when the entry has
  a pool, \<^verbatim>\<open>db2.open\<close> otherwise, always with the connection string.\<close>

definition open_call :: "registered_connection \<Rightarrow> call" where
  "open_call connection =
     (if pool connection then PoolOpen (getConnectionString connection)
      else Db2Open (getConnectionString connection))"

text \<open>The entry of the log for the open call made in state \<open>s\<close>.\<close>

definition open_event :: "driver \<Rightarrow> registered_connection \<Rightarrow> adapter \<Rightarrow> event" where
  "open_event D connection s =
     (open_call connection,
      case open_reply D (events s) (open_call connection) of
        Inl err \<Rightarrow> Failure err | Inr h \<Rightarrow> Connected h)"

definition open_connection ::
  "driver \<Rightarrow> registered_connection \<Rightarrow> adapter \<Rightarrow> (db_error + handle) \<times> adapter"
where
  "open_connection D connection s =
     (open_reply D (events s) (open_call connection),
      s\<lparr>events := events s @ [open_event D connection s]\<rparr>)"

text \<open>\<^verbatim>\<open>connection.conn = conn\<close> in every \<^verbatim>\<open>operationCallback\<close>.\<close>

definition store_conn :: "string \<Rightarrow> registered_connection \<Rightarrow> handle \<Rightarrow> adapter \<Rightarrow> adapter" where
  "store_conn connectionName connection h s =
     s\<lparr>connections := (connections s)(connectionName \<mapsto> connection\<lparr>conn := Some h\<rparr>)\<rparr>"

text \<open>\<^verbatim>\<open>connection.conn.query(sql, params, callback)\<close>: the entry of the log, and
  the reply with the new state.\<close>

definition query_event ::
  "driver \<Rightarrow> handle \<Rightarrow> string \<Rightarrow> jsval list option \<Rightarrow> adapter \<Rightarrow> event"
where
  "query_event D h sql params s =
     (ConnQuery h sql params,
      case query_reply D (events s) (ConnQuery h sql params) of
        Inl err \<Rightarrow> Failure err | Inr rows \<Rightarrow> Records rows)"

definition conn_query ::
  "driver \<Rightarrow> handle \<Rightarrow> string \<Rightarrow> jsval list option \<Rightarrow> adapter
     \<Rightarrow> (db_error + row list) \<times> adapter"
where
  "conn_query D h sql params s =
     (query_reply D (events s) (ConnQuery h sql params),
      s\<lparr>events := events s @ [query_event D h sql params s]\<rparr>)"

subsection \<open>query, define, describe\<close>

definition query ::
  "driver \<Rightarrow> string \<Rightarrow> string \<Rightarrow> string \<Rightarrow> jsval list option \<Rightarrow> adapter
     \<Rightarrow> (db_error + row list) outcome \<times> adapter"
where
  "query D connectionName collectionName sql data s =
     (case connections s connectionName of
        None \<Rightarrow> (Thrown, s)
      | Some connection \<Rightarrow>
          (case open_connection D connection s of
             (Inl err, s1) \<Rightarrow> (Called (Inl err), s1)
           | (Inr h, s1) \<Rightarrow>
               (case conn_query D h sql data (store_conn connectionName connection h s1) of
                  (r, s2) \<Rightarrow> (Called r, s2))))"

definition define_callback :: "db_error + row list \<Rightarrow> db_error + row list" where
  "define_callback r =
     (case r of
        Inl err \<Rightarrow> if err_state err \<noteq> JStr ''42S01'' then Inl err else Inr []
      | Inr result \<Rightarrow> Inr result)"

definition define_op ::
  "driver \<Rightarrow> string \<Rightarrow> string \<Rightarrow> attribute obj \<Rightarrow> adapter
     \<Rightarrow> (db_error + row list) outcome \<times> adapter"
where
  "define_op D connectionName collectionName defn s =
     (case connections s connectionName of
        None \<Rightarrow> (Thrown, s)
      | Some connection \<Rightarrow>
          (case query D connectionName collectionName (define_query collectionName defn) None s of
             (Thrown, s1) \<Rightarrow> (Thrown, s1)
           | (Called r, s1) \<Rightarrow> (Called (define_callback r), s1)))"

text \<open>An attribute as describe builds it: the three flags are set to \<^verbatim>\<open>true\<close>
  together or left out (\<open>False\<close>); the type is \<^verbatim>\<open>undefined\<close> (\<open>None\<close>) for a
  native type the table does not have.\<close>

record described =
  d_type :: "string option"
  d_primaryKey :: bool
  d_autoIncrement :: bool
  d_unique :: bool

definition is_space :: "char \<Rightarrow> bool" where
  "is_space ch = (ch \<in> set [CHR '' '', CHR 0x09, CHR 0x0A, CHR 0x0B, CHR 0x0C, CHR 0x0D])"

text \<open>\<^verbatim>\<open>String.prototype.trim\<close>, on the white space of ASCII.\<close>

definition trim :: "string \<Rightarrow> string" where
  "trim s = rev (dropWhile is_space (rev (dropWhile is_space s)))"

text \<open>The body of describe's loop for one catalog row; \<^verbatim>\<open>attr.COLTYPE.trim()\<close>
  throws unless COLTYPE is a string.\<close>

definition describe_attribute :: "row \<Rightarrow> described option" where
  "describe_attribute attr =
     (case get attr ''COLTYPE'' of
        JStr coltype \<Rightarrow>
          (let ty = map_of typeMap (trim coltype) in
           if get attr ''IDENTITY'' = JStr ''Y'' \<and> get attr ''KEYSEQ'' \<noteq> JNum 0
              \<and> get attr ''NULLS'' = JStr ''N'' \<and> ty = Some ''integer''
           then Some \<lparr>d_type = ty, d_primaryKey = True, d_autoIncrement = True, d_unique = True\<rparr>
           else Some \<lparr>d_type = ty, d_primaryKey = False, d_autoIncrement = False,
                      d_unique = False\<rparr>)
      | _ \<Rightarrow> None)"

fun describe_loop ::
  "(string \<rightharpoonup> described) \<Rightarrow> row list \<Rightarrow> (string \<rightharpoonup> described) option"
where
  "describe_loop attributes [] = Some attributes"
| "describe_loop attributes (attr # attrs) =
     (case describe_attribute attr of
        None \<Rightarrow> None
      | Some a \<Rightarrow> describe_loop (attributes(toString (get attr ''NAME'') \<mapsto> a)) attrs)"

text \<open>The callback describe gives to query: \<open>None\<close> when it throws; the result is
  \<^verbatim>\<open>null\<close> (\<open>Inr None\<close>) or the attributes.\<close>

definition describe_callback ::
  "db_error + row list \<Rightarrow> (db_error + (string \<rightharpoonup> described) option) option"
where
  "describe_callback r =
     (case r of
        Inl err \<Rightarrow> Some (Inl err)
      | Inr attrs \<Rightarrow>
          if length attrs = 0 then Some (Inr None)
          else (case describe_loop Map.empty attrs of
                  None \<Rightarrow> None
                | Some attributes \<Rightarrow> Some (Inr (Some attributes))))"

definition describe ::
  "driver \<Rightarrow> string \<Rightarrow> string \<Rightarrow> adapter
     \<Rightarrow> (db_error + (string \<rightharpoonup> described) option) outcome \<times> adapter"
where
  "describe D connectionName collectionName s =
     (case connections s connectionName of
        None \<Rightarrow> (Thrown, s)
      | Some connection \<Rightarrow>
          (case query D connectionName collectionName (describe_query collectionName) None s of
             (Thrown, s1) \<Rightarrow> (Thrown, s1)
           | (Called r, s1) \<Rightarrow>
               (case describe_callback r of
                  None \<Rightarrow> (Thrown, s1)
                | Some res \<Rightarrow> (Called res, s1))))"

subsection \<open>drop\<close>

definition passCallback :: "db_error + row list \<Rightarrow> db_error + row list" where
  "passCallback r =
     (case r of
        Inl err \<Rightarrow> if err_state err \<noteq> JStr ''42S02'' then Inl err else Inr []
      | Inr result \<Rightarrow> Inr result)"

definition dropTable ::
  "driver \<Rightarrow> handle \<Rightarrow> string \<Rightarrow> adapter \<Rightarrow> (db_error + row list) \<times> adapter"
where
  "dropTable D h name s = conn_query D h (''DROP TABLE '' @ name) None s"

text \<open>
  \<^verbatim>\<open>async.eachSeries(relations, dropTable, final)\<close> from a point where the statement
  of the next relation is about to be issued: a failed relation ends the series in
  \<^verbatim>\<open>cb(err)\<close>; after the last relation the final callback drops the collection's
  table and hands the reply to \<open>passCallback\<close>. The result lists the caller's callback
  invocations in order.
\<close>

fun eachSeries_dropTable ::
  "driver \<Rightarrow> handle \<Rightarrow> string list \<Rightarrow> string \<Rightarrow> adapter
     \<Rightarrow> (db_error + row list) list \<times> adapter"
where
  "eachSeries_dropTable D h [] collectionName s =
     (case dropTable D h collectionName s of (r, s1) \<Rightarrow> ([passCallback r], s1))"
| "eachSeries_dropTable D h (relation # rest) collectionName s =
     (case dropTable D h relation s of
        (Inl err, s1) \<Rightarrow> ([Inl err], s1)
      | (Inr result, s1) \<Rightarrow> eachSeries_dropTable D h rest collectionName s1)"

text \<open>
  \<^verbatim>\<open>__DROP__\<close>. The series issues its first statement at once (the first relation's,
  or the collection's own when there is no relation); then line 341 issues
  \<^verbatim>\<open>DROP TABLE\<close> of the collection with the relations as parameters, before any
  reply has arrived. The replies come in the order of issue; the series goes on from
  the first reply.
\<close>

definition drop_body ::
  "driver \<Rightarrow> handle \<Rightarrow> string \<Rightarrow> string list \<Rightarrow> adapter
     \<Rightarrow> (db_error + row list) list \<times> adapter"
where
  "drop_body D h collectionName relations s =
     (case relations of
        [] \<Rightarrow>
          (case dropTable D h collectionName s of (r1, s1) \<Rightarrow>
             (case conn_query D h (''DROP TABLE '' @ collectionName) (Some (map JStr relations)) s1
              of (r2, s2) \<Rightarrow> ([passCallback r1, passCallback r2], s2)))
      | relation # rest \<Rightarrow>
          (case dropTable D h relation s of (r1, s1) \<Rightarrow>
             (case conn_query D h (''DROP TABLE '' @ collectionName) (Some (map JStr relations)) s1
              of (r2, s2) \<Rightarrow>
                (case r1 of
                   Inl err \<Rightarrow> ([Inl err, passCallback r2], s2)
                 | Inr result \<Rightarrow>
                     (case eachSeries_dropTable D h rest collectionName s2 of
                        (cbs, s3) \<Rightarrow> (passCallback r2 # cbs, s3))))))"

text \<open>\<^verbatim>\<open>drop\<close>; \<open>relations\<close> is the empty list when the caller passes none.\<close>

definition drop_op ::
  "driver \<Rightarrow> string \<Rightarrow> string \<Rightarrow> string list \<Rightarrow> adapter
     \<Rightarrow> (db_error + row list) list outcome \<times> adapter"
where
  "drop_op D connectionName collectionName relations s =
     (case connections s connectionName of
        None \<Rightarrow> (Thrown, s)
      | Some connection \<Rightarrow>
          (case open_connection D connection s of
             (Inl err, s1) \<Rightarrow> (Called [Inl err], s1)
           | (Inr h, s1) \<Rightarrow>
               (case drop_body D h collectionName relations
                       (store_conn connectionName connection h s1) of
                  (cbs, s2) \<Rightarrow> (Called cbs, s2))))"

subsection \<open>find, create, update, destroy\<close>

definition find_op ::
  "lodash \<Rightarrow> driver \<Rightarrow> string \<Rightarrow> string \<Rightarrow> options \<Rightarrow> adapter
     \<Rightarrow> (db_error + row list) outcome \<times> adapter"
where
  "find_op L D connectionName collectionName opts s =
     (case connections s connectionName of
        None \<Rightarrow> (Thrown, s)
      | Some connection \<Rightarrow>
          (case open_connection D connection s of
             (Inl err, s1) \<Rightarrow> (Called (Inl err), s1)
           | (Inr h, s1) \<Rightarrow>
               (case collections connection collectionName of
                  None \<Rightarrow> (Thrown, store_conn connectionName connection h s1)
                | Some c \<Rightarrow>
                    (case find_query L c opts of (sqlQuery, params) \<Rightarrow>
                       (case conn_query D h sqlQuery (Some params)
                               (store_conn connectionName connection h s1) of
                          (r, s2) \<Rightarrow> (Called r, s2))))))"

text \<open>The callback of create and update: \<^verbatim>\<open>cb(err)\<close>, or \<^verbatim>\<open>cb(null, results[0])\<close>,
  which is \<^verbatim>\<open>undefined\<close> (\<open>None\<close>) for no row.\<close>

definition first_result :: "db_error + row list \<Rightarrow> db_error + row option" where
  "first_result r =
     (case r of
        Inl err \<Rightarrow> Inl err
      | Inr results \<Rightarrow> Inr (case results of [] \<Rightarrow> None | x # xs \<Rightarrow> Some x))"

definition create ::
  "lodash \<Rightarrow> driver \<Rightarrow> string \<Rightarrow> string \<Rightarrow> jsval obj \<Rightarrow> adapter
     \<Rightarrow> (db_error + row option) outcome \<times> adapter"
where
  "create L D connectionName collectionName vals s =
     (case connections s connectionName of
        None \<Rightarrow> (Thrown, s)
      | Some connection \<Rightarrow>
          (case open_connection D connection s of
             (Inl err, s1) \<Rightarrow> (Called (Inl err), s1)
           | (Inr h, s1) \<Rightarrow>
               (case collections connection collectionName of
                  None \<Rightarrow> (Thrown, store_conn connectionName connection h s1)
                | Some c \<Rightarrow>
                    (case conn_query D h (create_query L c vals) None
                            (store_conn connectionName connection h s1) of
                       (r, s2) \<Rightarrow> (Called (first_result r), s2)))))"

definition update ::
  "lodash \<Rightarrow> driver \<Rightarrow> string \<Rightarrow> string \<Rightarrow> options \<Rightarrow> jsval obj \<Rightarrow> adapter
     \<Rightarrow> (db_error + row option) outcome \<times> adapter"
where
  "update L D connectionName collectionName opts vals s =
     (case connections s connectionName of
        None \<Rightarrow> (Thrown, s)
      | Some connection \<Rightarrow>
          (case open_connection D connection s of
             (Inl err, s1) \<Rightarrow> (Called (Inl err), s1)
           | (Inr h, s1) \<Rightarrow>
               (case collections connection collectionName of
                  None \<Rightarrow> (Thrown, store_conn connectionName connection h s1)
                | Some c \<Rightarrow>
                    (case conn_query D h (update_query L c opts vals) None
                            (store_conn connectionName connection h s1) of
                       (r, s2) \<Rightarrow> (Called (first_result r), s2)))))"

definition destroy ::
  "lodash \<Rightarrow> driver \<Rightarrow> string \<Rightarrow> string \<Rightarrow> options \<Rightarrow> adapter
     \<Rightarrow> (db_error + row list) outcome \<times> adapter"
where
  "destroy L D connectionName collectionName opts s =
     (case connections s connectionName of
        None \<Rightarrow> (Thrown, s)
      | Some connection \<Rightarrow>
          (case open_connection D connection s of
             (Inl err, s1) \<Rightarrow> (Called (Inl err), s1)
           | (Inr h, s1) \<Rightarrow>
               (case collections connection collectionName of
                  None \<Rightarrow> (Thrown, store_conn connectionName connection h s1)
                | Some c \<Rightarrow>
                    (case destroy_query L c opts of (sql, params) \<Rightarrow>
                       (case conn_query D h sql (Some params)
                               (store_conn connectionName connection h s1) of
                          (r, s2) \<Rightarrow> (Called r, s2))))))"

text \<open>The driver events an operation added to the log.\<close>

definition new_events :: "adapter \<Rightarrow> adapter \<Rightarrow> event list" where
  "new_events s s' = drop (length (events s)) (events s')"

section \<open>What the operations are checked against\<close>

fun is_statement :: "call \<Rightarrow> bool" where
  "is_statement (ConnQuery h sql params) = True"
| "is_statement c = False"

text \<open>
  An operation on a registered connection that took the state from \<open>s\<close> to \<open>s'\<close>
  opened anew: the log grew by the open call first, made with the entry's connection
  string whatever handle the entry held, then by statements only (so no handle was
  closed); and the entry holds the handle this open returned, or is as it was when the
  open failed.
\<close>

definition opens_anew ::
  "driver \<Rightarrow> string \<Rightarrow> registered_connection \<Rightarrow> adapter \<Rightarrow> adapter \<Rightarrow> bool"
where
  "opens_anew D connectionName connection s s' =
     (events s' = events s @ new_events s s'
      \<and> (case new_events s s' of
            [] \<Rightarrow> False
          | ev # rest \<Rightarrow> ev = open_event D connection s
              \<and> list_all (\<lambda>ev. is_statement (fst ev)) rest)
      \<and> connections s' =
          (case open_reply D (events s) (open_call connection) of
             Inl err \<Rightarrow> connections s
           | Inr h \<Rightarrow> (connections s)(connectionName \<mapsto> connection\<lparr>conn := Some h\<rparr>)))"




section \<open>Example data\<close>

text \<open>A collection with an identity column and a string column, and a few inputs.\<close>

definition users :: collection where
  "users = \<lparr>tableName = ''users'',
     definition_attrs =
       [(''id'', \<lparr>attr_type = JStr ''integer'', primaryKey = JBool True,
                  autoIncrement = JBool True, attr_length = JUndefined\<rparr>),
        (''name'', \<lparr>attr_type = JStr ''string'', primaryKey = JUndefined,
                    autoIncrement = JUndefined, attr_length = JUndefined\<rparr>)]\<rparr>"

definition json_attr :: attribute where
  "json_attr = \<lparr>attr_type = JStr ''json'', primaryKey = JUndefined,
     autoIncrement = JUndefined, attr_length = JUndefined\<rparr>"

definition no_options :: options where
  "no_options = \<lparr>o_where = [], o_sort = [], o_limit = JUndefined\<rparr>"

definition ghost_options :: options where
  "ghost_options =
     \<lparr>o_where = [(''id'', JNum 1), (''ghost'', JNum 2)], o_sort = [], o_limit = JUndefined\<rparr>"

definition length_options :: options where
  "length_options =
     \<lparr>o_where = [(''length'', JNum 1), (''id'', JNum 5)], o_sort = [], o_limit = JUndefined\<rparr>"

definition id_options :: options where
  "id_options = \<lparr>o_where = [(''id'', JNum 5)], o_sort = [], o_limit = JUndefined\<rparr>"

definition length_values :: "jsval obj" where
  "length_values = [(''length'', JNum 1), (''name'', JStr ''bob'')]"

definition limit_options :: options where
  "limit_options = \<lparr>o_where = [], o_sort = [], o_limit = JNum 5\<rparr>"

definition obrien :: string where
  "obrien = ''O'' @ [sq] @ ''Brien''"

definition db_config :: connection_config where
  "db_config = \<lparr>cfg_identity = JStr ''db'', cfg_database = JStr ''testdb'',
     cfg_host = JStr ''localhost'', cfg_user = JStr ''db2inst1'',
     cfg_password = JStr ''secret'', cfg_port = JNum 50000, cfg_pool = JUndefined\<rparr>"

definition db_string :: string where
  "db_string =
     ''DRIVER={DB2};DATABASE=testdb;HOSTNAME=localhost;UID=db2inst1;PWD=secret;PORT=50000;PROTOCOL=TCPIP''"

definition db_entry :: registered_connection where
  "db_entry = \<lparr>config = db_config, collections = [''users'' \<mapsto> users],
     pool = False, conn = None\<rparr>"

text \<open>The module after one registration, with no driver call made yet.\<close>

definition registered :: adapter where
  "registered =
     snd (registerConnection db_config [''users'' \<mapsto> users]
            \<lparr>connections = Map.empty, events = []\<rparr>)"

text \<open>A driver that never fails: every open hands out a handle not seen before (the
  number of calls made so far), every statement returns no row.\<close>

definition fresh_driver :: driver where
  "fresh_driver = \<lparr>open_reply = (\<lambda>tr c. Inr (length tr)), query_reply = (\<lambda>tr c. Inr [])\<rparr>"

definition not_found :: db_error where
  "not_found = \<lparr>err_state = JStr ''42S02'', err_message = ''SQL0204N''\<rparr>"



text \<open>A database without the table \<^verbatim>\<open>pets\<close>: dropping it fails with the state of a
  missing table, every other statement succeeds.\<close>

definition no_pets_driver :: driver where
  "no_pets_driver =
     \<lparr>open_reply = (\<lambda>tr c. Inr (length tr)),
      query_reply = (\<lambda>tr c.
         case c of
           ConnQuery h sql params \<Rightarrow> if sql = ''DROP TABLE pets'' then Inl not_found else Inr []
         | _ \<Rightarrow> Inr [])\<rparr>"


text \<open>Two raw queries in a row on the registered connection.\<close>

definition after_first :: adapter where
  "after_first = snd (query fresh_driver ''db'' ''users'' ''SELECT 1'' None registered)"

definition after_second :: adapter where
  "after_second = snd (query fresh_driver ''db'' ''users'' ''SELECT 1'' None after_first)"

text \<open>Catalog rows of a table with an identity column and a nullable string column,
  and the attributes describe makes of them.\<close>

definition id_row :: row where
  "id_row = [(''NAME'', JStr ''ID''), (''COLTYPE'', JStr ''INTEGER ''),
     (''IDENTITY'', JStr ''Y''), (''KEYSEQ'', JNum 1), (''NULLS'', JStr ''N'')]"

definition name_row :: row where
  "name_row = [(''NAME'', JStr ''NAME''), (''COLTYPE'', JStr ''VARCHAR ''),
     (''IDENTITY'', JStr ''N''), (''KEYSEQ'', JNum 0), (''NULLS'', JStr ''Y'')]"

definition catalog_attrs :: "string \<rightharpoonup> described" where
  "catalog_attrs =
     [''ID'' \<mapsto> \<lparr>d_type = Some ''integer'', d_primaryKey = True, d_autoIncrement = True,
                  d_unique = True\<rparr>,
      ''NAME'' \<mapsto> \<lparr>d_type = Some ''string'', d_primaryKey = False, d_autoIncrement = False,
                    d_unique = False\<rparr>]"

section \<open>Properties of the type mapper\<close>

lemma roundtrip_each:
  "map_of typeMap (getSqlType (JStr ''string'')) = Some ''string''"
  "map_of typeMap (getSqlType (JStr ''integer'')) = Some ''integer''"
  "map_of typeMap (getSqlType (JStr ''float'')) = Some ''float''"
  "map_of typeMap (getSqlType (JStr ''text'')) = Some ''text''"
  "map_of typeMap (getSqlType (JStr ''binary'')) = Some ''binary''"
  "map_of typeMap (getSqlType (JStr ''time'')) = Some ''time''"
  "map_of typeMap (getSqlType (JStr ''date'')) = Some ''date''"
  by (simp_all add: getSqlType_def typeMap_def)

lemma typeMap_functional: "distinct (map fst typeMap)"
  by (simp add: typeMap_def)

lemma typeMap_integers:
  "map_of typeMap ''SMALLINT'' = Some ''integer''"
  "map_of typeMap ''INTEGER'' = Some ''integer''"
  "map_of typeMap ''BIGINT'' = Some ''integer''"
  by (simp_all add: typeMap_def)

text \<open>
  C7. Every abstract kind of string, integer, float, text, binary, time, date, mapped to
  its canonical native type by \<open>getSqlType\<close> and back through \<open>typeMap\<close>, is the kind
  one started from. The table is a function (its native type names are pairwise
  distinct, so each has one kind), and it is not injective: SMALLINT, INTEGER and BIGINT
  all map to integer.
\<close>

theorem typeMap_roundtrip:
  assumes "k \<in> set abstract_kinds"
  shows "map_of typeMap (getSqlType (JStr k)) = Some k
    \<and> distinct (map fst typeMap)
    \<and> map_of typeMap ''SMALLINT'' = Some ''integer''
    \<and> map_of typeMap ''INTEGER'' = Some ''integer''
    \<and> map_of typeMap ''BIGINT'' = Some ''integer''"
proof -
  from assms have "k = ''string'' \<or> k = ''integer'' \<or> k = ''float''
    \<or> k = ''text'' \<or> k = ''binary'' \<or> k = ''time'' \<or> k = ''date''"
    unfolding abstract_kinds_def by simp
  then have "map_of typeMap (getSqlType (JStr k)) = Some k"
    using roundtrip_each by blast
  with typeMap_functional typeMap_integers show ?thesis
    by blast
qed

theorem typeMap_roundtrip_witness:
  "''text'' \<in> set abstract_kinds \<and> map_of typeMap (getSqlType (JStr ''text'')) = Some ''text''"
proof -
  have h: "''text'' \<in> set abstract_kinds"
    by (simp add: abstract_kinds_def)
  from typeMap_roundtrip [OF h] h show ?thesis
    by blast
qed

section \<open>Properties of the query builder\<close>

subsection \<open>define\<close>

lemma define_schemaData_acc:
  "foldl (\<lambda>schemaData (attrName, a). schemaData @ [attrQuery attrName a]) acc defn
     = acc @ map (\<lambda>(attrName, a). attrQuery attrName a) defn"
  by (induction defn arbitrary: acc) auto

lemma define_schemaData_map:
  "define_schemaData defn = map (\<lambda>(attrName, a). attrQuery attrName a) defn"
  by (simp add: define_schemaData_def define_schemaData_acc)

lemma getSqlType_unknown:
  assumes "t \<notin> JStr ` set abstract_kinds"
  shows "getSqlType t = []"
proof -
  from assms have "t \<noteq> JStr ''string''" "t \<noteq> JStr ''integer''" "t \<noteq> JStr ''float''"
    "t \<noteq> JStr ''text''" "t \<noteq> JStr ''binary''" "t \<noteq> JStr ''time''" "t \<noteq> JStr ''date''"
    unfolding abstract_kinds_def by auto
  then show ?thesis
    unfolding getSqlType_def by simp
qed

lemma attrQuery_unknown:
  assumes "attr_type a \<notin> JStr ` set abstract_kinds" and "\<not> truthy (primaryKey a)"
  shows "attrQuery n a = n @ '' ''"
  using assms(2) getSqlType_unknown [OF assms(1)]
  by (simp add: attrQuery_def)

text \<open>
  C10. An attribute whose declared type is none of the seven abstract kinds and whose
  primaryKey flag is not truthy gets the empty native type, and its column clause in the
  CREATE TABLE statement of define is the attribute name followed by one space and
  nothing else, wherever the attribute stands in the definition.
\<close>

theorem unknown_type_column:
  assumes "attr_type a \<notin> JStr ` set abstract_kinds" and "\<not> truthy (primaryKey a)"
  shows "getSqlType (attr_type a) = []
    \<and> define_schemaData (pre @ [(n, a)] @ post)
        = define_schemaData pre @ [n @ '' ''] @ define_schemaData post
    \<and> define_query t (pre @ [(n, a)] @ post)
        = ''CREATE TABLE '' @ t @ '' ('' @
           join '','' (define_schemaData pre @ [n @ '' ''] @ define_schemaData post) @ '')''"
  using getSqlType_unknown [OF assms(1)] attrQuery_unknown [OF assms]
  by (simp add: define_schemaData_map define_query_def)

theorem unknown_type_column_witness:
  "attr_type json_attr \<notin> JStr ` set abstract_kinds \<and> \<not> truthy (primaryKey json_attr)
   \<and> getSqlType (attr_type json_attr) = []
   \<and> define_query ''users'' [(''data'', json_attr)] = ''CREATE TABLE users (data )''"
proof -
  have h1: "attr_type json_attr \<notin> JStr ` set abstract_kinds"
    by (simp add: json_attr_def abstract_kinds_def)
  have h2: "\<not> truthy (primaryKey json_attr)"
    by (simp add: json_attr_def)
  from unknown_type_column [OF h1 h2, of "[]" "''data''" "[]" "''users''"] h1 h2
  show ?thesis
    by (simp add: define_schemaData_def)
qed

subsection \<open>The entries lodash visits\<close>

lemma each_by_key:
  assumes "walked_by_key L ob"
  shows "each L ob = ob"
  using assms
  by (cases "get ob ''length''") (simp_all add: each_def walked_by_key_def)

lemma each_empty [simp]: "each L [] = []"
  by (simp add: each_def get_def)

subsection \<open>find\<close>

lemma where_loop_acc:
  "foldl (where_step defn) (whereData, params) wh =
     (whereData @ map (\<lambda>(column, param). column @ '' = ?'')
        (filter (\<lambda>(column, param). hasOwnProperty defn column) wh),
      params @ map snd (filter (\<lambda>(column, param). hasOwnProperty defn column) wh))"
  by (induction wh arbitrary: whereData params) (auto simp: where_step_def)

lemma where_loop_filter:
  "where_loop L defn wh =
     (map (\<lambda>(column, param). column @ '' = ?'')
        (filter (\<lambda>(column, param). hasOwnProperty defn column) (each L wh)),
      map snd (filter (\<lambda>(column, param). hasOwnProperty defn column) (each L wh)))"
  by (simp add: where_loop_def where_loop_acc)

lemma sort_step_pair:
  "sort_step defn sortData (column, direction) =
     (if hasOwnProperty defn column then sortData @ [column @ '' '' @ toString direction]
      else sortData)"
  by (simp add: sort_step_def)

lemma sort_acc:
  "foldl (sort_step defn) sortData srt =
     sortData @ map (\<lambda>(column, direction). column @ '' '' @ toString direction)
       (filter (\<lambda>(column, direction). hasOwnProperty defn column) srt)"
proof (induction srt arbitrary: sortData)
  case Nil
  show ?case by simp
next
  case (Cons e srt)
  obtain column direction where e: "e = (column, direction)"
    by (cases e)
  show ?case
    by (cases "hasOwnProperty defn column") (simp_all add: e sort_step_pair Cons.IH)
qed

lemma join_empty_iff:
  assumes "\<And>x. x \<in> set xs \<Longrightarrow> x \<noteq> []"
  shows "join sep xs = [] \<longleftrightarrow> xs = []"
  using assms by (induction sep xs rule: join.induct) auto

lemma find_whereQuery_filter:
  "find_whereQuery L c opts =
     (if filter (\<lambda>(column, param). hasOwnProperty (definition_attrs c) column)
           (each L (o_where opts)) = []
      then []
      else '' WHERE '' @ join '' AND ''
        (map (\<lambda>(column, param). column @ '' = ?'')
          (filter (\<lambda>(column, param). hasOwnProperty (definition_attrs c) column)
            (each L (o_where opts)))))"
proof -
  let ?ks = "filter (\<lambda>(column, param). hasOwnProperty (definition_attrs c) column)
    (each L (o_where opts))"
  let ?wd = "map (\<lambda>(column, param). column @ '' = ?'') ?ks"
  have "join '' AND '' ?wd = [] \<longleftrightarrow> ?wd = []"
    by (rule join_empty_iff) auto
  then show ?thesis
    by (simp add: find_whereQuery_def where_loop_filter Let_def)
qed

lemma find_sortQuery_filter:
  "find_sortQuery L c opts =
     (if filter (\<lambda>(column, direction). hasOwnProperty (definition_attrs c) column)
           (each L (o_sort opts)) = []
      then []
      else '' ORDER BY '' @ join '', ''
        (map (\<lambda>(column, direction). column @ '' '' @ toString direction)
          (filter (\<lambda>(column, direction). hasOwnProperty (definition_attrs c) column)
            (each L (o_sort opts)))))"
proof -
  let ?ks = "filter (\<lambda>(column, direction). hasOwnProperty (definition_attrs c) column)
    (each L (o_sort opts))"
  let ?sd = "map (\<lambda>(column, direction). column @ '' '' @ toString direction) ?ks"
  have "join '', '' ?sd = [] \<longleftrightarrow> ?sd = []"
    by (rule join_empty_iff) auto
  then show ?thesis
    by (simp add: find_sortQuery_def sort_acc Let_def)
qed

text \<open>
  The statement of find, for a where and a sort object that lodash walks by key: SELECT
  and FROM, then a WHERE clause of one placeholder comparison for each where entry whose
  column the definition has (none when there is no such entry), then an ORDER BY clause
  of the sort entries whose column the definition has (none when there is no such
  entry), then the limit clause; the bound parameters are the values of those where
  entries, in iteration order.
\<close>

theorem find_builds_from_known_columns:
  assumes "walked_by_key L (o_where opts)" and "walked_by_key L (o_sort opts)"
  shows "find_query L c opts =
    (''SELECT '' @ getSelectAttributes c @ '' FROM '' @ tableName c
       @ (if filter (\<lambda>(column, param). hasOwnProperty (definition_attrs c) column)
               (o_where opts) = []
          then []
          else '' WHERE '' @ join '' AND ''
            (map (\<lambda>(column, param). column @ '' = ?'')
              (filter (\<lambda>(column, param). hasOwnProperty (definition_attrs c) column)
                (o_where opts))))
       @ (if filter (\<lambda>(column, direction). hasOwnProperty (definition_attrs c) column)
               (o_sort opts) = []
          then []
          else '' ORDER BY '' @ join '', ''
            (map (\<lambda>(column, direction). column @ '' '' @ toString direction)
              (filter (\<lambda>(column, direction). hasOwnProperty (definition_attrs c) column)
                (o_sort opts))))
       @ (if isEmpty (o_limit opts) then []
          else '' FETCH FIRST '' @ toString (o_limit opts) @ '' ROWS ONLY ''),
     map snd (filter (\<lambda>(column, param). hasOwnProperty (definition_attrs c) column)
       (o_where opts)))"
proof -
  have w: "each L (o_where opts) = o_where opts"
    by (rule each_by_key) (rule assms(1))
  have s: "each L (o_sort opts) = o_sort opts"
    by (rule each_by_key) (rule assms(2))
  have p: "snd (where_loop L (definition_attrs c) (o_where opts)) =
      map snd (filter (\<lambda>(column, param). hasOwnProperty (definition_attrs c) column)
        (o_where opts))"
    by (simp add: where_loop_filter w)
  have l: "find_limitQuery opts = (if isEmpty (o_limit opts) then []
      else '' FETCH FIRST '' @ toString (o_limit opts) @ '' ROWS ONLY '')"
    by (simp add: find_limitQuery_def)
  show ?thesis
    unfolding find_query_def Let_def find_whereQuery_filter find_sortQuery_filter w s p l
    by simp
qed

theorem find_builds_from_known_columns_witness:
  "walked_by_key LodashFrom3 (o_where ghost_options)
   \<and> walked_by_key LodashFrom3 (o_sort ghost_options)
   \<and> find_query LodashFrom3 users ghost_options
        = (''SELECT id,name FROM users WHERE id = ?'', [JNum 1])"
proof -
  have w: "walked_by_key LodashFrom3 (o_where ghost_options)"
    by (simp add: walked_by_key_def ghost_options_def get_def)
  have s: "walked_by_key LodashFrom3 (o_sort ghost_options)"
    by (simp add: walked_by_key_def ghost_options_def get_def)
  from find_builds_from_known_columns [OF w s, of users] w s show ?thesis
    by (simp add: users_def ghost_options_def hasOwnProperty_def getSelectAttributes_def
        keys_def)
qed

lemma each_length_options:
  "each L (o_where length_options) = [(''0'', JUndefined)]"
  by (cases L)
     (simp_all add: each_def get_def length_options_def digits.simps)

text \<open>
  C6. A where object with a numeric length is walked by index, not by key: for the
  where object with length 1 and id 5 on the collection of columns id and name, lodash
  visits index 0 alone, the definition has no column 0, and find builds no WHERE clause
  and binds no parameter, although id is a column of the definition. Without the length
  entry the same filter gives the WHERE clause and the parameter 5.
\<close>

theorem find_length_key_drops_where:
  "find_query L users length_options = (''SELECT id,name FROM users'', [])
   \<and> find_query L users id_options = (''SELECT id,name FROM users WHERE id = ?'', [JNum 5])"
proof -
  have a: "find_query L users length_options = (''SELECT id,name FROM users'', [])"
    by (simp add: find_query_def find_whereQuery_def find_sortQuery_def find_limitQuery_def
        where_loop_def each_length_options where_step_def hasOwnProperty_def)
       (simp add: users_def length_options_def getSelectAttributes_def keys_def)
  have "each L (o_where id_options) = [(''id'', JNum 5)]"
    by (simp add: each_def get_def id_options_def)
  then have b: "find_query L users id_options
      = (''SELECT id,name FROM users WHERE id = ?'', [JNum 5])"
    by (simp add: find_query_def find_whereQuery_def find_sortQuery_def find_limitQuery_def
        where_loop_def where_step_def hasOwnProperty_def users_def id_options_def
        getSelectAttributes_def keys_def)
  from a b show ?thesis
    by simp
qed

text \<open>
  C3. The limit clause of find is guarded by lodash's emptiness test, which holds of every
  number: a numeric limit produces no FETCH clause at all. At the limit 5 the statement
  is the bare SELECT; the clause appears only for a limit given as a non-empty string.
\<close>

theorem find_numeric_limit_no_fetch:
  "find_limitQuery \<lparr>o_where = w, o_sort = s, o_limit = JNum n\<rparr> = []
   \<and> find_query L users limit_options = (''SELECT id,name FROM users'', [])
   \<and> find_limitQuery \<lparr>o_where = w, o_sort = s, o_limit = JStr ''5''\<rparr>
        = '' FETCH FIRST 5 ROWS ONLY ''"
proof -
  have "find_query L users limit_options = (''SELECT id,name FROM users'', [])"
    by (simp add: find_query_def find_whereQuery_def find_sortQuery_def find_limitQuery_def
        where_loop_def users_def limit_options_def getSelectAttributes_def keys_def)
  then show ?thesis
    by (simp add: find_limitQuery_def)
qed

subsection \<open>create\<close>

text \<open>
  C4. create and update wrap the string form of every value in single quotes and nothing
  more: a quote inside the value reaches the statement as it is. The value O'Brien is
  emitted as the literal 'O'Brien', not as 'O''Brien', which is what the adapter's own
  \<open>escape\<close> makes of it.
\<close>

theorem create_inlines_unescaped:
  "snd (create_loop L (definition_attrs users) [(''name'', JStr obrien)])
      = [[sq] @ ''O'' @ [sq] @ ''Brien'' @ [sq]]
   \<and> create_query L users [(''name'', JStr obrien)]
      = ''SELECT id,name FROM FINAL TABLE (INSERT INTO users (name) VALUES (''
          @ [sq] @ ''O'' @ [sq] @ ''Brien'' @ [sq] @ ''))''
   \<and> update_setData L (definition_attrs users) [(''name'', JStr obrien)]
      = [''name = '' @ [sq] @ ''O'' @ [sq] @ ''Brien'' @ [sq]]
   \<and> escape obrien = [sq] @ ''O'' @ [sq, sq] @ ''Brien'' @ [sq]"
proof -
  have "each L [(''name'', JStr obrien)] = [(''name'', JStr obrien)]"
    by (simp add: each_def get_def)
  then show ?thesis
    by (simp add: create_query_def create_loop_def create_step_def users_def obrien_def
        getSelectAttributes_def keys_def hasOwnProperty_def update_setData_def set_step_def
        is_autoIncrement_def escape_def sq_def)
qed

subsection \<open>update\<close>

lemma set_step_pair:
  "set_step defn setData (column, param) =
     (if hasOwnProperty defn column \<and> \<not> is_autoIncrement defn column
      then setData @ [column @ '' = '' @ [sq] @ toString param @ [sq]]
      else setData)"
  by (simp add: set_step_def)

lemma set_acc:
  "foldl (set_step defn) setData vals =
     setData @ map (\<lambda>(column, param). column @ '' = '' @ [sq] @ toString param @ [sq])
       (filter (\<lambda>(column, param).
          hasOwnProperty defn column \<and> \<not> is_autoIncrement defn column) vals)"
proof (induction vals arbitrary: setData)
  case Nil
  show ?case by simp
next
  case (Cons e vals)
  obtain column param where e: "e = (column, param)"
    by (cases e)
  show ?case
    by (cases "hasOwnProperty defn column \<and> \<not> is_autoIncrement defn column")
       (simp_all add: e set_step_pair Cons.IH)
qed

text \<open>
  The SET clause of update, for a values object that lodash walks by key: its
  assignments are those of the entries whose column the definition has and does not
  flag autoIncrement, one for each such entry, in iteration order, and the statement
  holds them, joined by commas, between the table name and the where clause.
\<close>

theorem update_set_from_known_columns:
  assumes "walked_by_key L vals"
  shows "update_setData L (definition_attrs c) vals =
      map (\<lambda>(column, param). column @ '' = '' @ [sq] @ toString param @ [sq])
       (filter (\<lambda>(column, param). hasOwnProperty (definition_attrs c) column
           \<and> \<not> is_autoIncrement (definition_attrs c) column) vals)
   \<and> update_query L c opts vals =
      ''SELECT '' @ getSelectAttributes c @ '' FROM FINAL TABLE (UPDATE '' @ tableName c
        @ '' SET '' @ join '',''
            (map (\<lambda>(column, param). column @ '' = '' @ [sq] @ toString param @ [sq])
              (filter (\<lambda>(column, param). hasOwnProperty (definition_attrs c) column
                 \<and> \<not> is_autoIncrement (definition_attrs c) column) vals))
        @ update_whereQuery L c opts @ '')''"
  using each_by_key [OF assms]
  by (simp add: update_setData_def set_acc update_setQuery_def update_query_def)

theorem update_set_from_known_columns_witness:
  "walked_by_key LodashFrom3 [(''id'', JNum 7), (''name'', JStr ''bob''), (''ghost'', JNum 2)]
   \<and> update_setData LodashFrom3 (definition_attrs users)
      [(''id'', JNum 7), (''name'', JStr ''bob''), (''ghost'', JNum 2)]
     = [''name = '' @ [sq] @ ''bob'' @ [sq]]"
proof -
  have w: "walked_by_key LodashFrom3
      [(''id'', JNum 7), (''name'', JStr ''bob''), (''ghost'', JNum 2)]"
    by (simp add: walked_by_key_def get_def)
  from update_set_from_known_columns [OF w, of users] w show ?thesis
    by (simp add: users_def hasOwnProperty_def is_autoIncrement_def)
qed

lemma each_length_values: "each L length_values = [(''0'', JUndefined)]"
  by (cases L)
     (simp_all add: each_def get_def length_values_def digits.simps)

text \<open>
  C8. A values object with a numeric length is walked by index, not by key: for the
  values with length 1 and name bob on the collection of columns id and name, lodash
  visits index 0 alone and update builds an empty SET list, although name is a column of
  the definition that is not flagged autoIncrement. Without the length entry the SET
  list holds the assignment of name.
\<close>

theorem update_length_key_empties_set:
  "update_setData L (definition_attrs users) length_values = []
   \<and> update_query L users no_options length_values
        = ''SELECT id,name FROM FINAL TABLE (UPDATE users SET )''
   \<and> update_setData L (definition_attrs users) [(''name'', JStr ''bob'')]
        = [''name = '' @ [sq] @ ''bob'' @ [sq]]"
proof -
  have a: "update_setData L (definition_attrs users) length_values = []"
    by (simp add: update_setData_def each_length_values set_step_def hasOwnProperty_def
        users_def)
  have b: "update_query L users no_options length_values
        = ''SELECT id,name FROM FINAL TABLE (UPDATE users SET )''"
    by (simp add: update_query_def update_setQuery_def a update_whereQuery_def no_options_def)
       (simp add: users_def getSelectAttributes_def keys_def)
  have "each L [(''name'', JStr ''bob'')] = [(''name'', JStr ''bob'')]"
    by (simp add: each_def get_def)
  then have c: "update_setData L (definition_attrs users) [(''name'', JStr ''bob'')]
        = [''name = '' @ [sq] @ ''bob'' @ [sq]]"
    by (simp add: update_setData_def set_step_def hasOwnProperty_def is_autoIncrement_def
        users_def)
  from a b c show ?thesis
    by simp
qed

section \<open>Properties of describe\<close>

lemma describe_loop_keeps:
  assumes "describe_loop acc post = Some m"
    and "\<forall>r\<in>set post. toString (get r ''NAME'') \<noteq> k"
  shows "m k = acc k"
  using assms
proof (induction post arbitrary: acc)
  case Nil
  then show ?case by simp
next
  case (Cons r post)
  from Cons.prems(1) obtain a where a: "describe_attribute r = Some a"
    and rest: "describe_loop (acc(toString (get r ''NAME'') \<mapsto> a)) post = Some m"
    by (auto split: option.splits)
  from Cons.prems(2) have ne: "toString (get r ''NAME'') \<noteq> k"
    and later: "\<forall>r\<in>set post. toString (get r ''NAME'') \<noteq> k"
    by simp_all
  from Cons.IH [OF rest later] ne show ?case
    by simp
qed

lemma describe_loop_last:
  assumes "describe_loop acc (pre @ attr # post) = Some m"
    and "\<forall>r\<in>set post. toString (get r ''NAME'') \<noteq> toString (get attr ''NAME'')"
  shows "m (toString (get attr ''NAME'')) = describe_attribute attr"
  using assms(1)
proof (induction pre arbitrary: acc)
  case Nil
  then obtain a where a: "describe_attribute attr = Some a"
    and rest: "describe_loop (acc(toString (get attr ''NAME'') \<mapsto> a)) post = Some m"
    by (auto split: option.splits)
  from describe_loop_keeps [OF rest assms(2)] a show ?case
    by simp
next
  case (Cons r pre)
  then show ?case
    by (auto split: option.splits)
qed

lemma describe_loop_dom:
  assumes "describe_loop acc attrs = Some m"
  shows "dom m = dom acc \<union> (\<lambda>r. toString (get r ''NAME'')) ` set attrs"
  using assms
proof (induction attrs arbitrary: acc)
  case Nil
  then show ?case by simp
next
  case (Cons r attrs)
  from Cons.prems obtain a where a: "describe_attribute r = Some a"
    and rest: "describe_loop (acc(toString (get r ''NAME'') \<mapsto> a)) attrs = Some m"
    by (auto split: option.splits)
  from Cons.IH [OF rest] show ?case
    by auto
qed

lemma describe_loop_defined:
  assumes "describe_loop acc (pre @ attr # post) = Some m"
  shows "describe_attribute attr \<noteq> None"
  using assms
  by (induction pre arbitrary: acc) (auto split: option.splits)

lemma describe_attribute_flags:
  assumes "describe_attribute attr = Some a"
  shows "(d_primaryKey a \<longleftrightarrow>
            get attr ''IDENTITY'' = JStr ''Y'' \<and> get attr ''KEYSEQ'' \<noteq> JNum 0
            \<and> get attr ''NULLS'' = JStr ''N''
            \<and> (\<exists>coltype. get attr ''COLTYPE'' = JStr coltype
                  \<and> map_of typeMap (trim coltype) = Some ''integer''))
       \<and> d_autoIncrement a = d_primaryKey a \<and> d_unique a = d_primaryKey a"
proof (cases "get attr ''COLTYPE''")
  case (JStr coltype)
  with assms show ?thesis
    by (auto simp: describe_attribute_def Let_def split: if_splits)
qed (use assms in \<open>simp_all add: describe_attribute_def\<close>)

lemma describe_callback_null:
  "describe_callback r = Some (Inr None) \<longleftrightarrow> r = Inr []"
  by (cases r) (auto simp: describe_callback_def split: option.splits)

lemma describe_of_query:
  assumes "connections s cn = Some connection"
    and "fst (query D cn t (describe_query t) None s) = Called r"
  shows "fst (describe D cn t s)
     = (case describe_callback r of None \<Rightarrow> Thrown | Some res \<Rightarrow> Called res)"
  using assms
  by (cases "query D cn t (describe_query t) None s")
     (auto simp: describe_def split: option.splits)

lemma describe_null_iff:
  assumes "connections s cn = Some connection"
  shows "fst (describe D cn t s) = Called (Inr None)
     \<longleftrightarrow> fst (query D cn t (describe_query t) None s) = Called (Inr [])"
proof (cases "query D cn t (describe_query t) None s")
  case (Pair out s1)
  show ?thesis
  proof (cases out)
    case Thrown
    with Pair assms show ?thesis
      by (simp add: describe_def)
  next
    case (Called r)
    with Pair assms describe_callback_null [of r] show ?thesis
      by (auto simp: describe_def split: option.splits)
  qed
qed

lemma describe_marks:
  assumes cb: "describe_callback (Inr (pre @ attr # post)) = Some (Inr (Some m))"
    and last: "\<forall>r\<in>set post. toString (get r ''NAME'') \<noteq> toString (get attr ''NAME'')"
  shows "dom m = (\<lambda>r. toString (get r ''NAME'')) ` set (pre @ attr # post)
     \<and> (\<exists>a. m (toString (get attr ''NAME'')) = Some a
          \<and> (d_primaryKey a \<longleftrightarrow>
                get attr ''IDENTITY'' = JStr ''Y'' \<and> get attr ''KEYSEQ'' \<noteq> JNum 0
                \<and> get attr ''NULLS'' = JStr ''N''
                \<and> (\<exists>coltype. get attr ''COLTYPE'' = JStr coltype
                      \<and> map_of typeMap (trim coltype) = Some ''integer''))
          \<and> d_autoIncrement a = d_primaryKey a \<and> d_unique a = d_primaryKey a)"
proof -
  from cb have loop: "describe_loop Map.empty (pre @ attr # post) = Some m"
    by (auto simp: describe_callback_def split: option.splits if_splits)
  from describe_loop_defined [OF loop] obtain a where a: "describe_attribute attr = Some a"
    by blast
  from describe_loop_last [OF loop last] a have "m (toString (get attr ''NAME'')) = Some a"
    by simp
  moreover from describe_loop_dom [OF loop]
  have "dom m = (\<lambda>r. toString (get r ''NAME'')) ` set (pre @ attr # post)"
    by simp
  ultimately show ?thesis
    using describe_attribute_flags [OF a] by blast
qed

text \<open>
  C9. On a registered connection, describe calls back with null exactly when its catalog
  query came back with no row (an error, or rows, never give null); otherwise its result
  is what the callback makes of the query's reply. In the attributes it returns, the
  columns are the names of the catalog rows, and the entry of a column (read from the
  last row of that name) has primaryKey set exactly when the row's IDENTITY is 'Y', its
  KEYSEQ is not the number 0, its NULLS is 'N', and its trimmed COLTYPE maps to integer
  in the type table; autoIncrement and unique are set together with primaryKey.
\<close>

theorem describe_null_and_identity:
  assumes "connections s cn = Some connection"
  shows "(fst (describe D cn t s) = Called (Inr None)
           \<longleftrightarrow> fst (query D cn t (describe_query t) None s) = Called (Inr []))
    \<and> (fst (query D cn t (describe_query t) None s) = Called r \<longrightarrow>
         fst (describe D cn t s)
           = (case describe_callback r of None \<Rightarrow> Thrown | Some res \<Rightarrow> Called res))
    \<and> (describe_callback (Inr (pre @ attr # post)) = Some (Inr (Some m))
         \<and> (\<forall>r\<in>set post. toString (get r ''NAME'') \<noteq> toString (get attr ''NAME''))
       \<longrightarrow> dom m = (\<lambda>r. toString (get r ''NAME'')) ` set (pre @ attr # post)
         \<and> (\<exists>a. m (toString (get attr ''NAME'')) = Some a
              \<and> (d_primaryKey a \<longleftrightarrow>
                    get attr ''IDENTITY'' = JStr ''Y'' \<and> get attr ''KEYSEQ'' \<noteq> JNum 0
                    \<and> get attr ''NULLS'' = JStr ''N''
                    \<and> (\<exists>coltype. get attr ''COLTYPE'' = JStr coltype
                          \<and> map_of typeMap (trim coltype) = Some ''integer''))
              \<and> d_autoIncrement a = d_primaryKey a \<and> d_unique a = d_primaryKey a))"
  using describe_null_iff [OF assms] describe_of_query [OF assms] describe_marks
  by blast

section \<open>Evaluating the examples\<close>

lemma db_string_eq: "getConnectionString db_entry = db_string"
  by (simp add: getConnectionString_def db_entry_def db_config_def db_string_def digits.simps)

lemma open_call_db: "open_call db_entry = Db2Open db_string"
  by (simp add: open_call_def db_string_eq) (simp add: db_entry_def)

lemma db_string_cached: "getConnectionString (db_entry\<lparr>conn := c\<rparr>) = db_string"
  using db_string_eq by (simp add: getConnectionString_def)

lemma open_call_db_cached: "open_call (db_entry\<lparr>conn := c\<rparr>) = Db2Open db_string"
  by (simp add: open_call_def db_string_cached) (simp add: db_entry_def)

lemma registered_eq: "registered = \<lparr>connections = [''db'' \<mapsto> db_entry], events = []\<rparr>"
  by (simp add: registered_def registerConnection_def db_config_def db_entry_def)

lemmas run_defs = open_connection_def conn_query_def store_conn_def open_event_def
  query_event_def

lemma after_first_eq:
  "after_first = \<lparr>connections = [''db'' \<mapsto> db_entry\<lparr>conn := Some 0\<rparr>],
      events = [(Db2Open db_string, Connected 0), (ConnQuery 0 ''SELECT 1'' None, Records [])]\<rparr>"
  using open_call_db
  by (simp add: after_first_def registered_eq query_def run_defs fresh_driver_def)

lemma after_second_eq:
  "after_second = \<lparr>connections = [''db'' \<mapsto> db_entry\<lparr>conn := Some 2\<rparr>],
      events = [(Db2Open db_string, Connected 0), (ConnQuery 0 ''SELECT 1'' None, Records []),
                (Db2Open db_string, Connected 2), (ConnQuery 2 ''SELECT 1'' None, Records [])]\<rparr>"
  using open_call_db_cached [of "Some 0"]
  by (simp add: after_second_def after_first_eq query_def run_defs fresh_driver_def
      numeral_2_eq_2)

lemma describe_query_eval:
  "fst (query fresh_driver ''db'' ''users'' (describe_query ''users'') None registered)
     = Called (Inr [])"
  by (simp add: registered_eq query_def run_defs fresh_driver_def)

lemma trim_examples:
  "trim ''INTEGER '' = ''INTEGER''" "trim ''VARCHAR '' = ''VARCHAR''"
  by (simp_all add: trim_def is_space_def)

lemma catalog_eval:
  "describe_callback (Inr ([] @ id_row # [name_row])) = Some (Inr (Some catalog_attrs))"
  by (simp add: describe_callback_def describe_attribute_def get_def id_row_def name_row_def
      catalog_attrs_def trim_examples typeMap_def)

theorem describe_null_and_identity_witness:
  "connections registered ''db'' = Some db_entry
   \<and> fst (describe fresh_driver ''db'' ''users'' registered) = Called (Inr None)
   \<and> describe_callback (Inr [id_row, name_row]) = Some (Inr (Some catalog_attrs))
   \<and> toString (get name_row ''NAME'') \<noteq> toString (get id_row ''NAME'')
   \<and> (\<exists>a. catalog_attrs ''ID'' = Some a \<and> d_primaryKey a \<and> d_autoIncrement a \<and> d_unique a)"
proof -
  have reg: "connections registered ''db'' = Some db_entry"
    by (simp add: registered_eq)
  have last: "\<forall>r\<in>set [name_row]. toString (get r ''NAME'') \<noteq> toString (get id_row ''NAME'')"
    by (simp add: get_def id_row_def name_row_def)
  have name: "toString (get id_row ''NAME'') = ''ID''"
    by (simp add: get_def id_row_def)
  have cond: "get id_row ''IDENTITY'' = JStr ''Y'' \<and> get id_row ''KEYSEQ'' \<noteq> JNum 0
      \<and> get id_row ''NULLS'' = JStr ''N''
      \<and> (\<exists>coltype. get id_row ''COLTYPE'' = JStr coltype
            \<and> map_of typeMap (trim coltype) = Some ''integer'')"
    by (simp add: get_def id_row_def trim_examples typeMap_def)
  note inst = describe_null_and_identity [OF reg, of fresh_driver "''users''" "Inr []"
      "[]" id_row "[name_row]" catalog_attrs]
  from inst describe_query_eval
  have null: "fst (describe fresh_driver ''db'' ''users'' registered) = Called (Inr None)"
    by blast
  from inst catalog_eval last cond name
  have "\<exists>a. catalog_attrs ''ID'' = Some a \<and> d_primaryKey a \<and> d_autoIncrement a \<and> d_unique a"
    by metis
  with reg null catalog_eval last show ?thesis
    by simp
qed

section \<open>Properties of the connection handles\<close>

lemma new_events_append [simp]:
  "events s' = events s @ xs \<Longrightarrow> new_events s s' = xs"
  by (simp add: new_events_def)

lemma is_statement_query_event [simp]: "is_statement (fst (query_event D h sql params s))"
  by (simp add: query_event_def)

lemmas step_defs = open_connection_def conn_query_def store_conn_def

lemma query_opens:
  assumes "connections s cn = Some connection"
  shows "opens_anew D cn connection s (snd (query D cn t sql data s))"
  using assms
  by (cases "open_reply D (events s) (open_call connection)")
     (simp_all add: query_def step_defs opens_anew_def)

lemma define_state:
  "snd (define_op D cn t defn s) = snd (query D cn t (define_query t defn) None s)"
  by (simp add: define_op_def query_def split: option.splits prod.splits outcome.splits)

lemma describe_state:
  "snd (describe D cn t s) = snd (query D cn t (describe_query t) None s)"
  by (simp add: describe_def query_def split: option.splits prod.splits outcome.splits)

lemma find_opens:
  assumes "connections s cn = Some connection"
  shows "opens_anew D cn connection s (snd (find_op L D cn t opts s))"
  using assms
  by (cases "open_reply D (events s) (open_call connection)")
     (simp_all add: find_op_def step_defs opens_anew_def split: option.splits prod.splits)

lemma create_opens:
  assumes "connections s cn = Some connection"
  shows "opens_anew D cn connection s (snd (create L D cn t vals s))"
  using assms
  by (cases "open_reply D (events s) (open_call connection)")
     (simp_all add: create_def step_defs opens_anew_def split: option.splits prod.splits)

lemma update_opens:
  assumes "connections s cn = Some connection"
  shows "opens_anew D cn connection s (snd (update L D cn t opts vals s))"
  using assms
  by (cases "open_reply D (events s) (open_call connection)")
     (simp_all add: update_def step_defs opens_anew_def split: option.splits prod.splits)

lemma destroy_opens:
  assumes "connections s cn = Some connection"
  shows "opens_anew D cn connection s (snd (destroy L D cn t opts s))"
  using assms
  by (cases "open_reply D (events s) (open_call connection)")
     (simp_all add: destroy_def step_defs opens_anew_def split: option.splits prod.splits)

lemma eachSeries_log:
  "\<exists>rest. events (snd (eachSeries_dropTable D h rels t s)) = events s @ rest
      \<and> list_all (\<lambda>ev. is_statement (fst ev)) rest
      \<and> connections (snd (eachSeries_dropTable D h rels t s)) = connections s"
proof (induction rels arbitrary: s)
  case Nil
  show ?case
    by (simp add: dropTable_def conn_query_def)
next
  case (Cons r rels)
  show ?case
  proof (cases "query_reply D (events s) (ConnQuery h (''DROP TABLE '' @ r) None)")
    case (Inl err)
    then show ?thesis
      by (simp add: dropTable_def conn_query_def)
  next
    case (Inr result)
    let ?s1 = "s\<lparr>events := events s @ [query_event D h (''DROP TABLE '' @ r) None s]\<rparr>"
    from Cons.IH [of ?s1] obtain rest where
      "events (snd (eachSeries_dropTable D h rels t ?s1)) = events ?s1 @ rest"
      "list_all (\<lambda>ev. is_statement (fst ev)) rest"
      "connections (snd (eachSeries_dropTable D h rels t ?s1)) = connections ?s1"
      by blast
    with Inr show ?thesis
      by (simp add: dropTable_def conn_query_def)
  qed
qed

lemma drop_body_log:
  "\<exists>rest. events (snd (drop_body D h t rels s)) = events s @ rest
      \<and> list_all (\<lambda>ev. is_statement (fst ev)) rest
      \<and> connections (snd (drop_body D h t rels s)) = connections s"
proof (cases rels)
  case Nil
  then show ?thesis
    by (simp add: drop_body_def dropTable_def conn_query_def)
next
  case (Cons r rest)
  show ?thesis
  proof (cases "query_reply D (events s) (ConnQuery h (''DROP TABLE '' @ r) None)")
    case (Inl err)
    with Cons show ?thesis
      by (simp add: drop_body_def dropTable_def conn_query_def)
  next
    case (Inr result)
    let ?s1 = "s\<lparr>events := events s @ [query_event D h (''DROP TABLE '' @ r) None s]\<rparr>"
    let ?s2 = "?s1\<lparr>events := events ?s1 @
      [query_event D h (''DROP TABLE '' @ t) (Some (map JStr rels)) ?s1]\<rparr>"
    from eachSeries_log [of D h rest t ?s2] obtain more where
      "events (snd (eachSeries_dropTable D h rest t ?s2)) = events ?s2 @ more"
      "list_all (\<lambda>ev. is_statement (fst ev)) more"
      "connections (snd (eachSeries_dropTable D h rest t ?s2)) = connections ?s2"
      by blast
    with Inr Cons show ?thesis
      by (simp add: drop_body_def dropTable_def conn_query_def split_beta)
  qed
qed

lemma drop_opens:
  assumes "connections s cn = Some connection"
  shows "opens_anew D cn connection s (snd (drop_op D cn t rels s))"
proof (cases "open_reply D (events s) (open_call connection)")
  case (Inl err)
  with assms show ?thesis
    by (simp add: drop_op_def step_defs opens_anew_def)
next
  case (Inr h)
  let ?s1 = "store_conn cn connection h
    (s\<lparr>events := events s @ [open_event D connection s]\<rparr>)"
  from drop_body_log [of D h t rels ?s1] obtain rest where
    "events (snd (drop_body D h t rels ?s1)) = events ?s1 @ rest"
    "list_all (\<lambda>ev. is_statement (fst ev)) rest"
    "connections (snd (drop_body D h t rels ?s1)) = connections ?s1"
    by blast
  with Inr assms show ?thesis
    by (simp add: drop_op_def open_connection_def store_conn_def opens_anew_def split_beta)
qed

lemma closeConnection_closes:
  assumes "connections s cn = Some connection"
  shows "new_events s (snd (closeConnection cn s))
      = (case conn connection of None \<Rightarrow> [] | Some h \<Rightarrow> [(ConnClose h, Closed)])
    \<and> connections (snd (closeConnection cn s)) cn = None"
  using assms by (simp add: closeConnection_def)

text \<open>
  C1, as the code has it. Every public operation on a registered connection name calls
  the driver's open (the pool's when the entry has a pool) as its first driver call,
  whether or not the entry already holds a handle; when the open succeeds the returned
  handle replaces the one stored on the entry, and when it fails the entry is unchanged.
  The other driver calls of the operation are statements: no operation closes a handle.
  Closing is left to teardown, which for a connection name closes the handle stored
  last, if there is one, and removes the entry.
\<close>

theorem every_operation_opens_anew:
  assumes "connections s cn = Some connection"
  shows "opens_anew D cn connection s (snd (query D cn t sql data s))
    \<and> opens_anew D cn connection s (snd (define_op D cn t defn s))
    \<and> opens_anew D cn connection s (snd (describe D cn t s))
    \<and> opens_anew D cn connection s (snd (drop_op D cn t rels s))
    \<and> opens_anew D cn connection s (snd (find_op L D cn t opts s))
    \<and> opens_anew D cn connection s (snd (create L D cn t vals s))
    \<and> opens_anew D cn connection s (snd (update L D cn t opts vals s))
    \<and> opens_anew D cn connection s (snd (destroy L D cn t opts s))
    \<and> new_events s (snd (closeConnection cn s))
        = (case conn connection of None \<Rightarrow> [] | Some h \<Rightarrow> [(ConnClose h, Closed)])
    \<and> connections (snd (closeConnection cn s)) cn = None"
  using assms closeConnection_closes [OF assms]
  by (simp add: query_opens define_state describe_state drop_opens find_opens create_opens
      update_opens destroy_opens)

theorem every_operation_opens_anew_witness:
  "connections after_first ''db'' = Some (db_entry\<lparr>conn := Some 0\<rparr>)
   \<and> opens_anew fresh_driver ''db'' (db_entry\<lparr>conn := Some 0\<rparr>) after_first after_second
   \<and> open_event fresh_driver (db_entry\<lparr>conn := Some 0\<rparr>) after_first
        = (Db2Open db_string, Connected 2)
   \<and> connections after_second ''db'' = Some (db_entry\<lparr>conn := Some 2\<rparr>)"
proof -
  have cached: "connections after_first ''db'' = Some (db_entry\<lparr>conn := Some 0\<rparr>)"
    by (simp add: after_first_eq)
  from every_operation_opens_anew [OF cached, of fresh_driver "''users''" "''SELECT 1''" None]
  have "opens_anew fresh_driver ''db'' (db_entry\<lparr>conn := Some 0\<rparr>) after_first after_second"
    by (simp add: after_second_def)
  moreover have "open_event fresh_driver (db_entry\<lparr>conn := Some 0\<rparr>) after_first
        = (Db2Open db_string, Connected 2)"
    by (simp add: open_event_def open_call_db_cached after_first_eq fresh_driver_def)
  moreover have "connections after_second ''db'' = Some (db_entry\<lparr>conn := Some 2\<rparr>)"
    by (simp add: after_second_eq)
  ultimately show ?thesis
    using cached by simp
qed

text \<open>
  C1 as claimed fails: after a first query has stored handle 0 on the entry, a second
  query on the same name calls \<^verbatim>\<open>db2.open\<close> again and runs on the new handle 2, which
  replaces handle 0 on the entry.
\<close>

theorem second_query_opens_again:
  "map_option conn (connections after_first ''db'') = Some (Some 0)
   \<and> map fst (new_events after_first after_second)
        = [Db2Open db_string, ConnQuery 2 ''SELECT 1'' None]
   \<and> map_option conn (connections after_second ''db'') = Some (Some 2)"
  by (simp add: after_first_eq after_second_eq new_events_def)

section \<open>Properties of drop\<close>

text \<open>
  C2. With the relations pets and toys, drop of users issues the statements below: the
  DROP TABLE of the collection goes out right after the first relation's, before the
  second relation's, and once more at the end, so twice in all. When the first
  relation's drop fails, the collection's DROP TABLE has been issued all the same.
\<close>

theorem drop_issues_target_early_and_twice:
  "map fst (new_events registered
      (snd (drop_op fresh_driver ''db'' ''users'' [''pets'', ''toys''] registered)))
     = [Db2Open db_string,
        ConnQuery 0 ''DROP TABLE pets'' None,
        ConnQuery 0 ''DROP TABLE users'' (Some [JStr ''pets'', JStr ''toys'']),
        ConnQuery 0 ''DROP TABLE toys'' None,
        ConnQuery 0 ''DROP TABLE users'' None]
   \<and> map fst (new_events registered
      (snd (drop_op no_pets_driver ''db'' ''users'' [''pets'', ''toys''] registered)))
     = [Db2Open db_string,
        ConnQuery 0 ''DROP TABLE pets'' None,
        ConnQuery 0 ''DROP TABLE users'' (Some [JStr ''pets'', JStr ''toys''])]"
  using open_call_db
  by (simp add: registered_eq drop_op_def drop_body_def dropTable_def run_defs
      fresh_driver_def no_pets_driver_def)

section \<open>Properties of the error handling\<close>

lemma first_result_Inl [simp]:
  "first_result r = Inl e \<longleftrightarrow> r = Inl e"
  by (cases r) (simp_all add: first_result_def)

lemma describe_callback_Inl [simp]:
  "describe_callback (Inl e) = Some (Inl e)"
  by (simp add: describe_callback_def)

lemma describe_callback_Inr [simp]:
  "describe_callback (Inr rows) \<noteq> Some (Inl e)"
  by (simp add: describe_callback_def split: option.splits)





















end
